theory Spec2Isabelle
  imports Main "HOL-Library.Word" "HOL-Library.Finite_Map"
begin

section \<open>Go strings and the library functions the query tool calls\<close>

text \<open>
  The SQL text reaches the handler through JSON decoding, so it is valid UTF-8. The
  handler looks at it through \<open>strings.TrimSpace\<close>, \<open>range\<close> and the \<open>unicode\<close>
  package, which all see code points, and through \<open>HasPrefix\<close>, \<open>Index\<close>,
  \<open>IndexByte\<close>, \<open>Count\<close> and \<open>LastIndex\<close> with ASCII patterns only. An ASCII byte
  never occurs inside the encoding of another code point, so on valid UTF-8 those byte
  searches find the same places as the searches below on the code-point sequence, and
  \<open>idx == len(t)-1\<close> holds for byte offsets exactly when it holds for code-point
  offsets. The SQL text is therefore modelled as the sequence of its code points.
\<close>

type_synonym rune = nat
type_synonym runes = "rune list"

definition str :: "string \<Rightarrow> runes" where
  "str cs = map of_char cs"

text \<open>
  The \<open>unicode\<close> package decides ASCII code points by fixed comparisons and everything
  above by tables that are not part of this repository. The part above ASCII is a
  parameter; every theorem below holds for every choice of it.
\<close>

record unicode =
  IsLetterHi :: "rune \<Rightarrow> bool"
  IsSpaceHi :: "rune \<Rightarrow> bool"
  ToUpperHi :: "rune \<Rightarrow> rune"

definition IsLetter :: "unicode \<Rightarrow> rune \<Rightarrow> bool" where
  "IsLetter U r =
     (if r < 128 then (65 \<le> r \<and> r \<le> 90) \<or> (97 \<le> r \<and> r \<le> 122) else IsLetterHi U r)"

definition IsSpace :: "unicode \<Rightarrow> rune \<Rightarrow> bool" where
  "IsSpace U r =
     (if r < 128 then r = 9 \<or> r = 10 \<or> r = 11 \<or> r = 12 \<or> r = 13 \<or> r = 32
      else IsSpaceHi U r)"

definition ToUpper :: "unicode \<Rightarrow> rune \<Rightarrow> rune" where
  "ToUpper U r =
     (if r < 128 then (if 97 \<le> r \<and> r \<le> 122 then r - 32 else r) else ToUpperHi U r)"

definition TrimSpace :: "unicode \<Rightarrow> runes \<Rightarrow> runes" where
  "TrimSpace U s = rev (dropWhile (IsSpace U) (rev (dropWhile (IsSpace U) s)))"

definition HasPrefix :: "runes \<Rightarrow> runes \<Rightarrow> bool" where
  "HasPrefix s p = (take (length p) s = p)"

text \<open>\<open>strings.Index\<close>: the offset of the first occurrence, \<open>-1\<close> when there is none.\<close>

fun Index :: "runes \<Rightarrow> runes \<Rightarrow> int" where
  "Index [] sub = (if sub = [] then 0 else -1)"
| "Index (c # cs) sub =
     (if HasPrefix (c # cs) sub then 0
      else (let i = Index cs sub in if i < 0 then -1 else i + 1))"

definition IndexByte :: "runes \<Rightarrow> rune \<Rightarrow> int" where
  "IndexByte s c = Index s [c]"

text \<open>\<open>strings.LastIndex\<close>: the offset of the last occurrence, \<open>-1\<close> when there is none.\<close>

fun LastIndex :: "runes \<Rightarrow> runes \<Rightarrow> int" where
  "LastIndex [] sub = (if sub = [] then 0 else -1)"
| "LastIndex (c # cs) sub =
     (let i = LastIndex cs sub
      in if 0 \<le> i then i + 1 else if HasPrefix (c # cs) sub then 0 else -1)"

text \<open>\<open>strings.Count\<close>: the number of non-overlapping occurrences.\<close>

function Count :: "runes \<Rightarrow> runes \<Rightarrow> int" where
  "Count s sub =
     (if sub = [] then int (length s) + 1
      else if s = [] then 0
      else if HasPrefix s sub then 1 + Count (drop (length sub) s) sub
      else Count (tl s) sub)"
  by pat_completeness auto
termination
  by (relation "measure (\<lambda>(s, sub). length s)") auto

declare Count.simps [simp del]

section \<open>Statement classifier\<close>

text \<open>\<open>isSingleStatement\<close>, query_tool.go lines 219-236.\<close>

definition isSingleStatement :: "unicode \<Rightarrow> runes \<Rightarrow> bool" where
  "isSingleStatement U sql =
     (let t = TrimSpace U sql in
      if t = [] then False
      else let semi = Count t (str '';'') in
        if semi = 0 then True
        else if semi > 1 then False
        else let idx = LastIndex t (str '';'') in
          if idx = int (length t) - 1 then TrimSpace U (take (nat idx) t) \<noteq> []
          else False)"

text \<open>
  The comment-skipping loop of \<open>firstKeyword\<close>, lines 240-258. \<open>None\<close> is the
  \<open>return ""\<close> inside the loop; \<open>Some s\<close> is the text the loop leaves through
  \<open>break\<close>. The search for the closing \<open>*/\<close> starts at offset 0 of \<open>s\<close>, as the
  call \<open>strings.Index(s, "*/")\<close> does.
\<close>

function skipComments :: "unicode \<Rightarrow> runes \<Rightarrow> runes option" where
  "skipComments U s =
     (if HasPrefix s (str ''--'') then
        (let newline = IndexByte s 10 in
         if newline < 0 then None
         else skipComments U (TrimSpace U (drop (nat (newline + 1)) s)))
      else if HasPrefix s (str ''/*'') then
        (let end = Index s (str ''*/'') in
         if end < 0 then None
         else skipComments U (TrimSpace U (drop (nat (end + 2)) s)))
      else Some s)"
  by pat_completeness auto

termination skipComments
proof (relation "measure (\<lambda>(U, s). length s)", goal_cases)
  case 1
  show ?case by simp
next
  case (2 U s newline)
  then have ne: "s \<noteq> []" by (auto simp: HasPrefix_def str_def)
  have "length (TrimSpace U (drop (nat (newline + 1)) s)) \<le> length (drop (nat (newline + 1)) s)"
    by (simp add: TrimSpace_def le_trans [OF length_dropWhile_le] length_dropWhile_le)
  also have "\<dots> < length s"
    using ne 2 by (cases s) auto
  finally show ?case by simp
next
  case (3 U s e)
  then have ne: "s \<noteq> []" by (auto simp: HasPrefix_def str_def)
  have "length (TrimSpace U (drop (nat (e + 2)) s)) \<le> length (drop (nat (e + 2)) s)"
    by (simp add: TrimSpace_def le_trans [OF length_dropWhile_le] length_dropWhile_le)
  also have "\<dots> < length s"
    using ne 3 by (cases s) auto
  finally show ?case by simp
qed

declare skipComments.simps [simp del]

text \<open>
  The \<open>range\<close> loop of \<open>firstKeyword\<close>, lines 262-272, with the builder as the
  accumulator \<open>b\<close>.
\<close>

fun scanKeyword :: "unicode \<Rightarrow> runes \<Rightarrow> runes \<Rightarrow> runes" where
  "scanKeyword U [] b = b"
| "scanKeyword U (r # rs) b =
     (if IsLetter U r \<or> r = of_char CHR ''_'' then scanKeyword U rs (b @ [ToUpper U r])
      else if b = [] \<and> IsSpace U r then scanKeyword U rs b
      else b)"

text \<open>\<open>firstKeyword\<close>, lines 238-274.\<close>

definition firstKeyword :: "unicode \<Rightarrow> runes \<Rightarrow> runes" where
  "firstKeyword U sql =
     (case skipComments U (TrimSpace U sql) of
        None \<Rightarrow> []
      | Some s \<Rightarrow> if s = [] then [] else scanKeyword U s [])"

section \<open>Guardrail policy\<close>

text \<open>The keys of the map \<open>allowedReadOnly\<close>, lines 201-208.\<close>

definition allowedReadOnly :: "runes list" where
  "allowedReadOnly =
     [str ''SELECT'', str ''WITH'', str ''SHOW'', str ''EXPLAIN'', str ''VALUES'', str ''TABLE'']"

text \<open>\<open>isReadOnlyStatement\<close>, lines 210-217.\<close>

definition isReadOnlyStatement :: "unicode \<Rightarrow> runes \<Rightarrow> bool" where
  "isReadOnlyStatement U sql =
     (let kw = firstKeyword U sql in
      if kw = [] then False else kw \<in> set allowedReadOnly)"

section \<open>Value and argument normalizer\<close>

text \<open>
  A \<open>float64\<close> is the rational number it denotes, an infinity, or NaN. The handler
  only truncates, compares and converts such values, and these operations are exact, so
  no rounding is involved. Negative zero is the rational 0: \<open>math.Trunc\<close>, \<open>==\<close>
  and \<open>int64(v)\<close> do not tell the two zeros apart.
\<close>

datatype float64 = Finite rat | PosInf | NegInf | NaN

fun Trunc :: "float64 \<Rightarrow> float64" where
  "Trunc (Finite r) = Finite (of_int (if 0 \<le> r then \<lfloor>r\<rfloor> else \<lceil>r\<rceil>))"
| "Trunc v = v"

text \<open>The \<open>==\<close> of \<open>float64\<close>: NaN is equal to nothing, itself included.\<close>

fun float_eq :: "float64 \<Rightarrow> float64 \<Rightarrow> bool" where
  "float_eq (Finite a) (Finite b) = (a = b)"
| "float_eq PosInf PosInf = True"
| "float_eq NegInf NegInf = True"
| "float_eq _ _ = False"

text \<open>
  \<open>pgtype.Numeric\<close>, a struct of the driver: the number \<open>Mantissa * 10^Exp\<close>, or
  NaN, or an infinity (\<open>InfinityModifier\<close> above or below 0), and whether the value is
  present at all. The handler reads \<open>Valid\<close> only; \<open>Mantissa\<close> and \<open>IsNaN\<close> stand
  for the driver's fields \<open>Int\<close> and \<open>NaN\<close>.
\<close>

record Numeric =
  Mantissa :: int
  Exp :: int
  IsNaN :: bool
  InfinityModifier :: int
  Valid :: bool

text \<open>
  What the Go runtime and the platform decide, taken as a parameter: the result of
  \<open>int64(v)\<close> when \<open>v\<close> is outside the range of \<open>int64\<close> (the language leaves
  it to the implementation).
\<close>

record external =
  Int64OutOfRange :: "float64 \<Rightarrow> 64 word"

text \<open>The conversion \<open>int64(v)\<close>: truncation towards zero when the result fits.\<close>

fun int64_of_float :: "external \<Rightarrow> float64 \<Rightarrow> 64 word" where
  "int64_of_float X (Finite r) =
     (let z = (if 0 \<le> r then \<lfloor>r\<rfloor> else \<lceil>r\<rceil>)
      in if - (2 ^ 63) \<le> z \<and> z < 2 ^ 63 then word_of_int z else Int64OutOfRange X (Finite r))"
| "int64_of_float X v = Int64OutOfRange X v"

text \<open>
  A request argument (\<open>any\<close>): what JSON decoding produces, the \<open>int64\<close> the
  normalizer produces, and \<open>AOther\<close> for a value of any other dynamic type.
\<close>

datatype 'o arg =
    ANil
  | ABool bool
  | AFloat64 float64
  | AInt64 "64 word"
  | AString string
  | AMap "(string, 'o arg) fmap"
  | AList "'o arg list"
  | AOther 'o

text \<open>\<open>normalizeArgument\<close>, lines 154-176.\<close>

primrec normalizeArgument :: "external \<Rightarrow> 'o arg \<Rightarrow> 'o arg" where
  "normalizeArgument X ANil = ANil"
| "normalizeArgument X (ABool b) = ABool b"
| "normalizeArgument X (AFloat64 v) =
     (if float_eq (Trunc v) v then AInt64 (int64_of_float X v) else AFloat64 v)"
| "normalizeArgument X (AInt64 w) = AInt64 w"
| "normalizeArgument X (AString s) = AString s"
| "normalizeArgument X (AMap m) = AMap (fmmap (normalizeArgument X) m)"
| "normalizeArgument X (AList xs) = AList (map (normalizeArgument X) xs)"
| "normalizeArgument X (AOther x) = AOther x"

text \<open>
  A \<open>time.Time\<close>: the instant as seconds since the Unix epoch and nanoseconds
  within the second (below \<open>10^9\<close>), and the offset of its location in seconds east
  of UTC. \<open>UTC()\<close> keeps the instant. The formatting functions below follow the
  documented output of the \<open>time\<close> package.
\<close>

record Time =
  unixSec :: int
  nsec :: nat
  zoneOffset :: int

definition UTC :: "Time \<Rightarrow> Time" where
  "UTC t = t\<lparr>zoneOffset := 0\<rparr>"

text \<open>Decimal digits of a natural number, at least \<open>w\<close> of them (zero padded).\<close>

definition digit :: "nat \<Rightarrow> char" where
  "digit n = ''0123456789'' ! (n mod 10)"

fun digits :: "nat \<Rightarrow> nat \<Rightarrow> string" where
  "digits w n =
     (if n < 10 then replicate (w - 1) CHR ''0'' @ [digit n]
      else digits (w - 1) (n div 10) @ [digit n])"

declare digits.simps [simp del]

definition appendInt :: "int \<Rightarrow> nat \<Rightarrow> string" where
  "appendInt x w = (if x < 0 then CHR ''-'' # digits w (nat (- x)) else digits w (nat x))"

text \<open>The civil date of a day number counted from 1970-01-01 (proleptic Gregorian).\<close>

definition civil :: "int \<Rightarrow> int \<times> int \<times> int" where
  "civil days =
     (let z = days + 719468;
          era = z div 146097;
          doe = z - era * 146097;
          yoe = (doe - doe div 1460 + doe div 36524 - doe div 146096) div 365;
          doy = doe - (365 * yoe + yoe div 4 - yoe div 100);
          mp = (5 * doy + 2) div 153;
          d = doy - (153 * mp + 2) div 5 + 1;
          m = (if mp < 10 then mp + 3 else mp - 9);
          y = yoe + era * 400 + (if m \<le> 2 then 1 else 0)
      in (y, m, d))"

text \<open>The fraction of \<open>.999999999\<close>: nine digits, trailing zeros dropped, nothing when zero.\<close>

definition fraction :: "nat \<Rightarrow> string" where
  "fraction ns =
     (let ds = rev (dropWhile (\<lambda>c. c = CHR ''0'') (rev (digits 9 ns)))
      in if ds = [] then [] else CHR ''.'' # ds)"

text \<open>
  \<open>Format(time.RFC3339Nano)\<close>, layout \<open>2006-01-02T15:04:05.999999999Z07:00\<close>: the
  zone is \<open>Z\<close> at offset 0 and \<open>+hh:mm\<close> or \<open>-hh:mm\<close> otherwise, from
  the offset in whole minutes (rounded towards zero).
\<close>

definition Format_RFC3339Nano :: "Time \<Rightarrow> string" where
  "Format_RFC3339Nano t =
     (let loc = unixSec t + zoneOffset t;
          (y, m, d) = civil (loc div 86400);
          s = loc mod 86400;
          off = \<bar>zoneOffset t\<bar> div 60;
          zone = (if zoneOffset t = 0 then ''Z''
                  else (if zoneOffset t < 0 \<and> 0 < off then ''-'' else ''+'')
                       @ digits 2 (nat (off div 60)) @ '':'' @ digits 2 (nat (off mod 60)))
      in appendInt y 4 @ ''-'' @ digits 2 (nat m) @ ''-'' @ digits 2 (nat d) @ ''T''
         @ digits 2 (nat (s div 3600)) @ '':'' @ digits 2 (nat (s mod 3600 div 60)) @ '':''
         @ digits 2 (nat (s mod 60)) @ fraction (nsec t) @ zone)"

text \<open>
  Modelled from the spec: the decimal text of \<open>a * 10^e\<close> for a natural number
  \<open>a\<close>, which is the digits of \<open>a\<close> followed by \<open>e\<close> zeros, or with the point
  set \<open>-e\<close> places from the right, after a single \<open>0\<close> and the zeros needed when
  \<open>a\<close> has no more digits than that.
\<close>

definition unsignedText :: "nat \<Rightarrow> int \<Rightarrow> string" where
  "unsignedText a e =
     (let d = digits 1 a; k = nat (- e)
      in if 0 \<le> e then (if a = 0 then d else d @ replicate (nat e) CHR ''0'')
         else if k < length d then take (length d - k) d @ ''.'' @ drop (length d - k) d
         else ''0.'' @ replicate (k - length d) CHR ''0'' @ d)"

text \<open>Modelled from the spec: the decimal text of \<open>m * 10^e\<close> for an integer \<open>m\<close>.\<close>

definition decimalText :: "int \<Rightarrow> int \<Rightarrow> string" where
  "decimalText m e = (if m < 0 then ''-'' else []) @ unsignedText (nat \<bar>m\<bar>) e"

text \<open>
  Modelled from the spec: the \<open>String()\<close> of \<open>pgtype.Numeric\<close>, which
  \<open>normalizeValue\<close> calls and the sources do not contain. The specification says of
  it that a numeric value renders as its canonical decimal text form: the number
  \<open>Mantissa * 10^Exp\<close> written out in decimal digits, with a leading minus sign when
  negative and no exponent. NaN and the infinities, of which the specification says
  nothing, are written as PostgreSQL writes them.
\<close>

definition Numeric_String :: "Numeric \<Rightarrow> string" where
  "Numeric_String n =
     (if IsNaN n then ''NaN''
      else if 0 < InfinityModifier n then ''Infinity''
      else if InfinityModifier n < 0 then ''-Infinity''
      else decimalText (Mantissa n) (Exp n))"

text \<open>
  A value as \<open>rows.Values()\<close> hands it over (\<open>any\<close>), by dynamic type. \<open>DStringer x s\<close>
  is a value \<open>x\<close> of any other type that implements \<open>fmt.Stringer\<close>, with the text
  \<open>s\<close> its \<open>String()\<close> returns; \<open>DOther x\<close> is a value of a type that does not.
\<close>

datatype 'o dbvalue =
    DNil
  | DBytes string
  | DString string
  | DTime Time
  | DNumeric Numeric
  | DNumericPtr "Numeric option"
  | DStringer 'o string
  | DOther 'o

text \<open>\<open>normalizeValue\<close>, lines 178-199.\<close>

fun normalizeValue :: "external \<Rightarrow> 'o dbvalue \<Rightarrow> 'o dbvalue" where
  "normalizeValue X (DBytes val) = DString val"
| "normalizeValue X (DTime val) = DString (Format_RFC3339Nano (UTC val))"
| "normalizeValue X (DNumeric val) =
     (if \<not> Valid val then DNil else DString (Numeric_String val))"
| "normalizeValue X (DNumericPtr val) =
     (case val of
        None \<Rightarrow> DNil
      | Some n \<Rightarrow> if \<not> Valid n then DNil else DString (Numeric_String n))"
| "normalizeValue X (DStringer x s) = DString s"
| "normalizeValue X v = v"

section \<open>Query executor\<close>

text \<open>
  The failures of \<open>call\<close>, under the names the specification gives them. The first
  four are the \<open>errors.New\<close> values of lines 52, 55, 58 and 63; the last two carry the
  error of the driver, from \<open>Query\<close> (line 82) and from \<open>rows.Values\<close> or
  \<open>rows.Err\<close> (lines 105, 119).
\<close>

datatype error =
    EmptyStatement
  | MultiStatementRejected
  | MutatingStatementRejected
  | InvalidLimit
  | ExecutionFailure string
  | IterationFailure string

text \<open>
  The command tag of the driver: its bytes (\<open>None\<close> is the nil tag) and the
  affected-row count \<open>RowsAffected()\<close> reports for it.
\<close>

record CommandTag =
  TagBytes :: "string option"
  RowsAffected :: int

text \<open>
  What \<open>pool.Query\<close> hands back (\<open>pgx.Rows\<close>): the field names, for every row that
  \<open>Next\<close> announces the result of \<open>Values\<close> (an error or the cells), the error that
  \<open>Err\<close> reports once \<open>Next\<close> has returned false, and the command tag the driver
  holds once the rows are closed, which \<open>Next\<close> does when it returns false.
\<close>

record 'o PgxRows =
  FieldDescriptions :: "string list"
  Stream :: "(string + 'o dbvalue list) list"
  FinalErr :: "string option"
  Tag :: CommandTag

text \<open>
  The pool is the database as the handler sees it: a function from the context's
  timeout, the SQL text and the bound parameters to an error or a result.
\<close>

type_synonym 'o pgxpool = "int option \<Rightarrow> runes \<Rightarrow> 'o arg list \<Rightarrow> string + 'o PgxRows"

record 'o queryHandler =
  pool :: "'o pgxpool"
  readOnly :: bool
  maxRows :: int
  requestTimeout :: int

record 'o queryInput =
  SQL :: runes
  Args :: "'o arg list"
  MaxRows :: int

text \<open>
  \<open>queryOutput\<close> without \<open>Elapsed\<close> and \<open>Meta\<close>: the first is read off the wall
  clock, the second is never set by \<open>call\<close>.
\<close>

record 'o queryOutput =
  Command :: string
  RowCount :: int
  Columns :: "string list"
  Rows :: "(string \<rightharpoonup> 'o dbvalue) list"
  Truncated :: bool

text \<open>\<open>applyTimeout\<close>, lines 140-145: \<open>None\<close> is the caller's context, unchanged.\<close>

definition applyTimeout :: "int \<Rightarrow> int option" where
  "applyTimeout d = (if d \<le> 0 then None else Some d)"

text \<open>\<open>commandString\<close>, lines 147-152.\<close>

definition commandString :: "CommandTag \<Rightarrow> string" where
  "commandString tag = (case TagBytes tag of None \<Rightarrow> [] | Some b \<Rightarrow> b)"

text \<open>The limit computation of \<open>call\<close>, lines 61-67.\<close>

definition effectiveLimit :: "'o queryHandler \<Rightarrow> 'o queryInput \<Rightarrow> error + int" where
  "effectiveLimit h input =
     (let limit = maxRows h in
      if MaxRows input < 0 then Inl InvalidLimit
      else if MaxRows input > 0 \<and> (limit = 0 \<or> MaxRows input < limit) then Inr (MaxRows input)
      else Inr limit)"

text \<open>
  The record of one row, lines 107-114: the columns in order, each assignment
  \<open>record[col] = val\<close> an update of the map; \<open>val\<close> stays nil when the row has no
  cell at the column's index.
\<close>

fun fillRecord ::
  "external \<Rightarrow> 'o dbvalue list \<Rightarrow> nat \<Rightarrow> string list \<Rightarrow> (string \<rightharpoonup> 'o dbvalue)
     \<Rightarrow> (string \<rightharpoonup> 'o dbvalue)" where
  "fillRecord X values i [] record = record"
| "fillRecord X values i (col # cols) record =
     fillRecord X values (i + 1) cols
       (record(col \<mapsto> (if i < length values then normalizeValue X (values ! i) else DNil)))"

definition buildRecord ::
  "external \<Rightarrow> string list \<Rightarrow> 'o dbvalue list \<Rightarrow> (string \<rightharpoonup> 'o dbvalue)" where
  "buildRecord X columns values = fillRecord X values 0 columns Map.empty"

text \<open>
  The row loop, lines 98-117, over the rows that \<open>Next\<close> announces. The result is an
  error of \<open>Values\<close>, or the rows emitted, their count, the truncation flag, and whether
  the loop ended because \<open>Next\<close> returned false (and not through \<open>break\<close>).
\<close>

fun consume ::
  "external \<Rightarrow> int \<Rightarrow> string list \<Rightarrow> (string + 'o dbvalue list) list
     \<Rightarrow> (string \<rightharpoonup> 'o dbvalue) list \<Rightarrow> int
     \<Rightarrow> string + ((string \<rightharpoonup> 'o dbvalue) list \<times> int \<times> bool \<times> bool)" where
  "consume X limit columns [] dataRows count = Inr (dataRows, count, False, True)"
| "consume X limit columns (r # rest) dataRows count =
     (if limit > 0 \<and> count \<ge> limit then Inr (dataRows, count, True, False)
      else case r of
        Inl err \<Rightarrow> Inl err
      | Inr values \<Rightarrow>
          consume X limit columns rest (dataRows @ [buildRecord X columns values]) (count + 1))"

text \<open>
  \<open>call\<close>, lines 49-138. After a \<open>break\<close> the driver has met no error, so
  \<open>rows.Err()\<close> is nil there; after \<open>Next\<close> returned false it is \<open>FinalErr\<close>.
  \<open>rows.CommandTag()\<close> is read before the deferred \<open>rows.Close()\<close> runs: after
  \<open>Next\<close> returned false the rows are closed and the tag is \<open>Tag\<close>; after a
  \<open>break\<close> they are still open and the tag is the zero tag, nil and with no row
  affected.
\<close>

definition call ::
  "unicode \<Rightarrow> external \<Rightarrow> 'o queryHandler \<Rightarrow> 'o queryInput \<Rightarrow> error + 'o queryOutput" where
  "call U X h input =
     (let sqlText = TrimSpace U (SQL input) in
      if sqlText = [] then Inl EmptyStatement
      else if \<not> isSingleStatement U sqlText then Inl MultiStatementRejected
      else if readOnly h \<and> \<not> isReadOnlyStatement U sqlText then Inl MutatingStatementRejected
      else case effectiveLimit h input of
        Inl e \<Rightarrow> Inl e
      | Inr limit \<Rightarrow>
          (let params = map (normalizeArgument X) (Args input);
               ctx = applyTimeout (requestTimeout h)
           in case pool h ctx sqlText params of
             Inl err \<Rightarrow> Inl (ExecutionFailure err)
           | Inr rows \<Rightarrow>
               (let columns = FieldDescriptions rows
                in case consume X limit columns (Stream rows) [] 0 of
                  Inl err \<Rightarrow> Inl (IterationFailure err)
                | Inr (dataRows, count, trunc, exhausted) \<Rightarrow>
                    (case (if exhausted then FinalErr rows else None) of
                       Some err \<Rightarrow> Inl (IterationFailure err)
                     | None \<Rightarrow>
                         (let tag = (if exhausted then Tag rows
                                     else \<lparr>TagBytes = None, RowsAffected = 0\<rparr>);
                              rowCount = (if count = 0 \<and> length columns = 0
                                          then RowsAffected tag else count)
                          in Inr \<lparr>Command = commandString tag, RowCount = rowCount,
                                  Columns = columns, Rows = dataRows, Truncated = trunc\<rparr>)))))"

section \<open>Server construction\<close>

definition defaultMaxRows :: int where
  "defaultMaxRows = 200"

text \<open>\<open>ServerOptions\<close>; a nil \<open>Pool\<close> is \<open>None\<close>. The logger plays no part in a call.\<close>

record 'o ServerOptions =
  Pool :: "'o pgxpool option"
  ReadOnly :: bool
  ConfiguredMaxRows :: int
  RequestTimeout :: int

text \<open>
  \<open>NewServer\<close>, reduced to the handler it registers: the server it returns answers
  \<open>postgres.query\<close> by \<open>call\<close> on that handler.
\<close>

definition NewServer :: "'o ServerOptions \<Rightarrow> string + 'o queryHandler" where
  "NewServer opts =
     (case Pool opts of
        None \<Rightarrow> Inl ''postgresmcp: pool must not be nil''
      | Some p \<Rightarrow>
          (let maxRows = (if ConfiguredMaxRows opts \<le> 0 then defaultMaxRows
                          else ConfiguredMaxRows opts)
           in Inr \<lparr>pool = p, readOnly = ReadOnly opts, maxRows = maxRows,
                   requestTimeout = RequestTimeout opts\<rparr>))"

section \<open>Reference points for the theorems\<close>

text \<open>
  The single-statement rule in the words of the specification: the trimmed text is not
  empty, and it holds no semicolon, or exactly one, which is its last character and has
  content that is not blank before it.
\<close>

definition singleStatementRule :: "unicode \<Rightarrow> runes \<Rightarrow> bool" where
  "singleStatementRule U sql =
     (let t = TrimSpace U sql in
      t \<noteq> [] \<and>
      (count_list t (of_char CHR '';'') = 0 \<or>
       (count_list t (of_char CHR '';'') = 1 \<and> last t = of_char CHR '';'' \<and>
        TrimSpace U (butlast t) \<noteq> [])))"

text \<open>Unicode tables that know no letter, space or case above ASCII, for concrete runs.\<close>

definition asciiOnly :: unicode where
  "asciiOnly = \<lparr>IsLetterHi = (\<lambda>r. False), IsSpaceHi = (\<lambda>r. False), ToUpperHi = (\<lambda>r. r)\<rparr>"

text \<open>A platform whose out-of-range conversion gives the least \<open>int64\<close>, for concrete runs.\<close>

definition amd64 :: external where
  "amd64 = \<lparr>Int64OutOfRange = (\<lambda>v. word_of_int (- (2 ^ 63)))\<rparr>"

text \<open>
  The number a decimal text denotes: an optional minus sign, digits, and optionally a
  point and more digits.
\<close>

fun digitsValue :: "nat \<Rightarrow> string \<Rightarrow> nat" where
  "digitsValue a [] = a"
| "digitsValue a (c # cs) = digitsValue (10 * a + (of_char c - 48)) cs"

definition natOfDigits :: "string \<Rightarrow> nat" where
  "natOfDigits cs = digitsValue 0 cs"

definition unsignedValue :: "string \<Rightarrow> rat" where
  "unsignedValue body =
     (let ip = takeWhile (\<lambda>c. c \<noteq> CHR ''.'') body;
          fp = drop 1 (dropWhile (\<lambda>c. c \<noteq> CHR ''.'') body)
      in of_nat (natOfDigits (ip @ fp)) / 10 ^ length fp)"

definition decimalValue :: "string \<Rightarrow> rat" where
  "decimalValue txt =
     (if txt \<noteq> [] \<and> hd txt = CHR ''-'' then - unsignedValue (tl txt)
      else unsignedValue txt)"

text \<open>A numeric for concrete runs: 15 with exponent -1, the number 1.5.\<close>

definition oneAndAHalf :: Numeric where
  "oneAndAHalf = \<lparr>Mantissa = 15, Exp = - 1, IsNaN = False, InfinityModifier = 0, Valid = True\<rparr>"

text \<open>
  A database for concrete runs: every query is answered with three rows under two
  columns of the same name, the second row one cell short and the third with no cell.
\<close>

definition sampleRows :: "nat PgxRows" where
  "sampleRows =
     \<lparr>FieldDescriptions = [''id'', ''id''],
      Stream = [Inr [DBytes ''1'', DBytes ''2''], Inr [DBytes ''3''], Inr []],
      FinalErr = None,
      Tag = \<lparr>TagBytes = Some ''SELECT 3'', RowsAffected = 3\<rparr>\<rparr>"

definition sampleHandler :: "nat queryHandler" where
  "sampleHandler =
     \<lparr>pool = (\<lambda>ctx sql params. Inr sampleRows), readOnly = True, maxRows = 2,
      requestTimeout = 0\<rparr>"

definition sampleInput :: "nat queryInput" where
  "sampleInput = \<lparr>SQL = str ''select id, id from t'', Args = [], MaxRows = 0\<rparr>"

text \<open>A database that answers every statement as an update of seven rows would.\<close>

definition updateRows :: "nat PgxRows" where
  "updateRows =
     \<lparr>FieldDescriptions = [], Stream = [], FinalErr = None,
      Tag = \<lparr>TagBytes = Some ''UPDATE 7'', RowsAffected = 7\<rparr>\<rparr>"

definition updateHandler :: "nat queryHandler" where
  "updateHandler =
     \<lparr>pool = (\<lambda>ctx sql params. Inr updateRows), readOnly = False, maxRows = 200,
      requestTimeout = 0\<rparr>"

definition updateInput :: "nat queryInput" where
  "updateInput = \<lparr>SQL = str ''update t set a = 1;'', Args = [], MaxRows = 0\<rparr>"

section \<open>Facts about the string functions\<close>

lemma TrimSpace_idem: "TrimSpace U (TrimSpace U s) = TrimSpace U s"
proof -
  define a where "a = dropWhile (IsSpace U) s"
  define b where "b = rev (dropWhile (IsSpace U) (rev a))"
  have b_take: "b = take (length b) a"
    unfolding b_def by (simp add: dropWhile_eq_drop rev_drop)
  have a_hd: "a = [] \<or> \<not> IsSpace U (hd a)"
    unfolding a_def by (metis hd_dropWhile)
  have "b = [] \<or> \<not> IsSpace U (hd b)"
  proof (cases "b = []")
    case True
    then show ?thesis by simp
  next
    case False
    then have "a \<noteq> []" using b_take by auto
    moreover have "hd b = hd a" using False b_take
      by (metis hd_take length_greater_0_conv)
    ultimately show ?thesis using a_hd by simp
  qed
  then have "dropWhile (IsSpace U) b = b"
    by (simp add: dropWhile_eq_self_iff)
  moreover have "rev (dropWhile (IsSpace U) (rev b)) = b"
    unfolding b_def by simp
  ultimately show ?thesis
    by (simp add: TrimSpace_def a_def b_def)
qed

lemma Count_single: "Count s [c] = int (count_list s c)"
proof (induction s)
  case Nil
  show ?case by (simp add: Count.simps)
next
  case (Cons x xs)
  show ?case
    by (subst Count.simps) (simp add: HasPrefix_def Cons)
qed

lemma LastIndex_lower: "- 1 \<le> LastIndex s sub"
  by (induction s) (auto simp: Let_def)

lemma LastIndex_single_end:
  "t \<noteq> [] \<Longrightarrow> (LastIndex t [c] = int (length t) - 1) = (last t = c)"
proof (induction t)
  case Nil
  then show ?case by simp
next
  case (Cons x xs)
  show ?case
  proof (cases "xs = []")
    case True
    then show ?thesis by (simp add: HasPrefix_def)
  next
    case False
    with Cons.IH have ih: "(LastIndex xs [c] = int (length xs) - 1) = (last xs = c)"
      by simp
    from False have "0 < length xs" by simp
    with ih False LastIndex_lower [of xs "[c]"] show ?thesis
      by (auto simp: Let_def HasPrefix_def)
  qed
qed

lemma isSingleStatement_trimmed:
  "isSingleStatement U (TrimSpace U sql) = isSingleStatement U sql"
  by (simp add: isSingleStatement_def TrimSpace_idem)

lemma firstKeyword_trimmed: "firstKeyword U (TrimSpace U sql) = firstKeyword U sql"
  by (simp add: firstKeyword_def TrimSpace_idem)

lemmas classifier_defs =
  isSingleStatement_def isReadOnlyStatement_def allowedReadOnly_def firstKeyword_def
  skipComments.simps TrimSpace_def IsSpace_def IsLetter_def ToUpper_def str_def HasPrefix_def
  IndexByte_def Count.simps

section \<open>The single-statement check\<close>

lemma isSingleStatement_eq_rule: "isSingleStatement U sql = singleStatementRule U sql"
proof -
  define t where "t = TrimSpace U sql"
  have tk: "t \<noteq> [] \<Longrightarrow> LastIndex t [59] = int (length t) - 1
              \<Longrightarrow> take (nat (LastIndex t [59])) t = butlast t"
    by (simp add: butlast_conv_take nat_diff_distrib')
  show ?thesis
    unfolding isSingleStatement_def singleStatementRule_def t_def [symmetric] Let_def
    using LastIndex_single_end [of t 59] tk
    by (auto simp: str_def Count_single)
qed

lemma semicolon_inside_fails:
  assumes "of_char CHR '';'' \<in> set (butlast (TrimSpace U sql))"
  shows "\<not> singleStatementRule U sql"
proof -
  define t where "t = TrimSpace U sql"
  from assms have ne: "t \<noteq> []" by (auto simp: t_def)
  from assms have "count_list (butlast t) (59::nat) \<noteq> 0"
    by (simp add: t_def count_list_0_iff)
  then have inner: "0 < count_list (butlast t) (59::nat)"
    by simp
  have "count_list t (59::nat) = count_list (butlast t @ [last t]) 59"
    using ne by simp
  also have "\<dots> = count_list (butlast t) 59 + (if last t = 59 then 1 else 0)"
    by (simp only: count_list_append) simp
  finally have "count_list t (59::nat) = count_list (butlast t) 59 + (if last t = 59 then 1 else 0)" .
  with inner show ?thesis
    unfolding singleStatementRule_def t_def [symmetric] Let_def
    by (auto split: if_splits)
qed

text \<open>
  C2. For every SQL text the single-statement check is true exactly when the trimmed
  text is not empty and holds no semicolon, or holds exactly one semicolon, at its last
  position, with content that is not blank before it. The lone \<open>;\<close> fails,
  \<open>SELECT 1;\<close> passes (and its keyword is SELECT), a text with more than one
  semicolon fails, and a text with a semicolon anywhere but at the end fails.
\<close>

theorem isSingleStatement_iff_rule:
  "(isSingleStatement U sql = singleStatementRule U sql)
   \<and> \<not> isSingleStatement U (str '';'')
   \<and> isSingleStatement U (str ''SELECT 1;'')
   \<and> firstKeyword U (str ''SELECT 1;'') = str ''SELECT''
   \<and> (1 < count_list (TrimSpace U sql) (of_char CHR '';'') \<longrightarrow> \<not> isSingleStatement U sql)
   \<and> (of_char CHR '';'' \<in> set (butlast (TrimSpace U sql)) \<longrightarrow> \<not> isSingleStatement U sql)"
proof -
  have a: "isSingleStatement U sql = singleStatementRule U sql"
    by (rule isSingleStatement_eq_rule)
  have b: "\<not> isSingleStatement U (str '';'')"
    by (simp add: classifier_defs)
  have c: "isSingleStatement U (str ''SELECT 1;'')"
    "firstKeyword U (str ''SELECT 1;'') = str ''SELECT''"
    by (simp_all add: classifier_defs)
  have d: "1 < count_list (TrimSpace U sql) (of_char CHR '';'') \<longrightarrow> \<not> isSingleStatement U sql"
    unfolding a by (simp add: singleStatementRule_def Let_def)
  have e: "of_char CHR '';'' \<in> set (butlast (TrimSpace U sql)) \<longrightarrow> \<not> isSingleStatement U sql"
    unfolding a using semicolon_inside_fails by blast
  from a b c d e show ?thesis by blast
qed

theorem isSingleStatement_iff_rule_witness:
  "1 < count_list (TrimSpace asciiOnly (str '' a;b; '')) (of_char CHR '';'')
   \<and> \<not> isSingleStatement asciiOnly (str '' a;b; '')
   \<and> of_char CHR '';'' \<in> set (butlast (TrimSpace asciiOnly (str ''a;b'')))
   \<and> \<not> isSingleStatement asciiOnly (str ''a;b'')
   \<and> singleStatementRule asciiOnly (str ''SELECT 1 ;  '')
   \<and> isSingleStatement asciiOnly (str ''SELECT 1 ;  '')"
proof -
  have h1: "1 < count_list (TrimSpace asciiOnly (str '' a;b; '')) (of_char CHR '';'')"
    by (simp add: TrimSpace_def IsSpace_def str_def)
  have h2: "of_char CHR '';'' \<in> set (butlast (TrimSpace asciiOnly (str ''a;b'')))"
    by (simp add: TrimSpace_def IsSpace_def str_def)
  have h3: "singleStatementRule asciiOnly (str ''SELECT 1 ;  '')"
    by (simp add: singleStatementRule_def TrimSpace_def IsSpace_def str_def)
  from h1 h2 h3
    isSingleStatement_iff_rule [of asciiOnly "str '' a;b; ''"]
    isSingleStatement_iff_rule [of asciiOnly "str ''a;b''"]
    isSingleStatement_iff_rule [of asciiOnly "str ''SELECT 1 ;  ''"]
  show ?thesis by blast
qed

section \<open>The read-only guard\<close>

lemma isReadOnlyStatement_iff:
  "isReadOnlyStatement U sql = (firstKeyword U sql \<in> set allowedReadOnly)"
  by (auto simp: isReadOnlyStatement_def Let_def allowedReadOnly_def str_def)

text \<open>
  C1. For every SQL text the read-only check passes exactly when the keyword the
  classifier returns is one of SELECT, WITH, SHOW, EXPLAIN, VALUES, TABLE (so an empty
  or unknown keyword is refused). In read-only mode a request that passed the empty and
  single-statement checks is denied by the guardrail exactly when that keyword is not in
  the set, and then with MutatingStatementRejected. \<open>DELETE FROM t\<close> is denied;
  \<open>select * from t\<close> with leading blanks is let through.
\<close>

theorem readOnly_guard_iff_allowed_keyword:
  "(isReadOnlyStatement U sql
      = (firstKeyword U sql \<in> {str ''SELECT'', str ''WITH'', str ''SHOW'', str ''EXPLAIN'',
                                 str ''VALUES'', str ''TABLE''}))
   \<and> set allowedReadOnly = {str ''SELECT'', str ''WITH'', str ''SHOW'', str ''EXPLAIN'',
                             str ''VALUES'', str ''TABLE''}
   \<and> (isReadOnlyStatement U sql = (firstKeyword U sql \<in> set allowedReadOnly))
   \<and> [] \<notin> set allowedReadOnly
   \<and> (readOnly h \<and> TrimSpace U (SQL input) \<noteq> [] \<and> isSingleStatement U (SQL input) \<longrightarrow>
        (call U X h input = Inl MutatingStatementRejected)
          = (firstKeyword U (SQL input) \<notin> {str ''SELECT'', str ''WITH'', str ''SHOW'',
                                              str ''EXPLAIN'', str ''VALUES'', str ''TABLE''}))
   \<and> isReadOnlyStatement U (str ''with x as (select 1) select * from x'')
   \<and> isReadOnlyStatement U (str ''show all'')
   \<and> isReadOnlyStatement U (str ''Explain select 1'')
   \<and> isReadOnlyStatement U (str ''values (1)'')
   \<and> isReadOnlyStatement U (str ''TABLE t'')
   \<and> \<not> isReadOnlyStatement U (str ''drop table t'')
   \<and> \<not> isReadOnlyStatement U (str ''insert into t values (1)'')
   \<and> \<not> isReadOnlyStatement U (str ''truncate t'')
   \<and> \<not> isReadOnlyStatement U (str ''(select 1)'')
   \<and> (readOnly h \<and> TrimSpace U (SQL input) \<noteq> [] \<and> isSingleStatement U (SQL input) \<longrightarrow>
        (call U X h input = Inl MutatingStatementRejected)
          = (firstKeyword U (SQL input) \<notin> set allowedReadOnly)
        \<and> call U X h input \<noteq> Inl EmptyStatement
        \<and> call U X h input \<noteq> Inl MultiStatementRejected)
   \<and> (readOnly h \<longrightarrow>
        call U X h \<lparr>SQL = str ''DELETE FROM t'', Args = a, MaxRows = m\<rparr>
          = Inl MutatingStatementRejected)
   \<and> isReadOnlyStatement U (str ''  select * from t'')
   \<and> (readOnly h \<longrightarrow>
        call U X h \<lparr>SQL = str ''  select * from t'', Args = a, MaxRows = m\<rparr>
          \<notin> {Inl EmptyStatement, Inl MultiStatementRejected, Inl MutatingStatementRejected})"
proof -
  have a: "isReadOnlyStatement U sql = (firstKeyword U sql \<in> set allowedReadOnly)"
    by (rule isReadOnlyStatement_iff)
  have b: "[] \<notin> set allowedReadOnly"
    by (simp add: allowedReadOnly_def str_def)
  have c: "readOnly h \<and> TrimSpace U (SQL input) \<noteq> [] \<and> isSingleStatement U (SQL input) \<longrightarrow>
        (call U X h input = Inl MutatingStatementRejected)
          = (firstKeyword U (SQL input) \<notin> set allowedReadOnly)
        \<and> call U X h input \<noteq> Inl EmptyStatement
        \<and> call U X h input \<noteq> Inl MultiStatementRejected"
    by (auto simp: call_def Let_def isSingleStatement_trimmed isReadOnlyStatement_iff
          firstKeyword_trimmed effectiveLimit_def
        split: sum.splits option.splits prod.splits if_splits)
  have d: "readOnly h \<longrightarrow>
        call U X h \<lparr>SQL = str ''DELETE FROM t'', Args = a, MaxRows = m\<rparr>
          = Inl MutatingStatementRejected"
    by (simp add: call_def classifier_defs)
  have e: "isReadOnlyStatement U (str ''  select * from t'')"
    by (simp add: classifier_defs)
  have f: "readOnly h \<longrightarrow>
        call U X h \<lparr>SQL = str ''  select * from t'', Args = a, MaxRows = m\<rparr>
          \<notin> {Inl EmptyStatement, Inl MultiStatementRejected, Inl MutatingStatementRejected}"
    by (simp add: call_def classifier_defs effectiveLimit_def Let_def
        split: sum.splits option.splits prod.splits)
  have s: "set allowedReadOnly = {str ''SELECT'', str ''WITH'', str ''SHOW'', str ''EXPLAIN'',
                             str ''VALUES'', str ''TABLE''}"
    by (simp add: allowedReadOnly_def)
  have a': "isReadOnlyStatement U sql
      = (firstKeyword U sql \<in> {str ''SELECT'', str ''WITH'', str ''SHOW'', str ''EXPLAIN'',
                                 str ''VALUES'', str ''TABLE''})"
    using a unfolding s .
  have c': "readOnly h \<and> TrimSpace U (SQL input) \<noteq> [] \<and> isSingleStatement U (SQL input) \<longrightarrow>
        (call U X h input = Inl MutatingStatementRejected)
          = (firstKeyword U (SQL input) \<notin> {str ''SELECT'', str ''WITH'', str ''SHOW'',
                                              str ''EXPLAIN'', str ''VALUES'', str ''TABLE''})"
    using c unfolding s by blast
  have g: "isReadOnlyStatement U (str ''with x as (select 1) select * from x'')"
    "isReadOnlyStatement U (str ''show all'')"
    "isReadOnlyStatement U (str ''Explain select 1'')"
    "isReadOnlyStatement U (str ''values (1)'')"
    "isReadOnlyStatement U (str ''TABLE t'')"
    "\<not> isReadOnlyStatement U (str ''drop table t'')"
    "\<not> isReadOnlyStatement U (str ''insert into t values (1)'')"
    "\<not> isReadOnlyStatement U (str ''truncate t'')"
    "\<not> isReadOnlyStatement U (str ''(select 1)'')"
    by (simp_all add: classifier_defs)
  from a a' s b c c' d e f g show ?thesis by blast
qed

theorem readOnly_guard_iff_allowed_keyword_witness:
  "readOnly sampleHandler
   \<and> TrimSpace asciiOnly (str ''UPDATE t SET a = 1'') \<noteq> []
   \<and> isSingleStatement asciiOnly (str ''UPDATE t SET a = 1'')
   \<and> firstKeyword asciiOnly (str ''UPDATE t SET a = 1'') \<notin> set allowedReadOnly
   \<and> call asciiOnly amd64 sampleHandler
        \<lparr>SQL = str ''UPDATE t SET a = 1'', Args = [], MaxRows = 0\<rparr>
       = Inl MutatingStatementRejected
   \<and> call asciiOnly amd64 sampleHandler
        \<lparr>SQL = str ''DELETE FROM t'', Args = [], MaxRows = 0\<rparr>
       = Inl MutatingStatementRejected"
proof -
  have h1: "readOnly sampleHandler"
    by (simp add: sampleHandler_def)
  have h2: "TrimSpace asciiOnly (str ''UPDATE t SET a = 1'') \<noteq> []"
    by (simp add: classifier_defs)
  have h3: "isSingleStatement asciiOnly (str ''UPDATE t SET a = 1'')"
    by (simp add: classifier_defs)
  have h4: "firstKeyword asciiOnly (str ''UPDATE t SET a = 1'') \<notin> set allowedReadOnly"
    by (simp add: classifier_defs)
  from h1 h2 h3 h4
    readOnly_guard_iff_allowed_keyword [of asciiOnly "[]" sampleHandler
      "\<lparr>SQL = str ''UPDATE t SET a = 1'', Args = [], MaxRows = 0\<rparr>" amd64 "[]" 0]
  show ?thesis by simp
qed

section \<open>The row loop and the result envelope\<close>

lemma fillRecord_dom: "dom (fillRecord X vs i cols r) = dom r \<union> set cols"
  by (induction cols arbitrary: i r) auto

lemma fillRecord_other: "name \<notin> set cols \<Longrightarrow> fillRecord X vs i cols r name = r name"
  by (induction cols arbitrary: i r) auto

lemma fillRecord_last:
  "k < length cols \<Longrightarrow> cols ! k = name \<Longrightarrow> name \<notin> set (drop (Suc k) cols) \<Longrightarrow>
   fillRecord X vs i cols r name
     = Some (if i + k < length vs then normalizeValue X (vs ! (i + k)) else DNil)"
proof (induction cols arbitrary: i r k)
  case Nil
  then show ?case by simp
next
  case (Cons c cols)
  show ?case
  proof (cases k)
    case 0
    with Cons.prems show ?thesis
      by (simp add: fillRecord_other)
  next
    case (Suc j)
    with Cons.prems have "j < length cols" "cols ! j = name" "name \<notin> set (drop (Suc j) cols)"
      by simp_all
    from Cons.IH [OF this, of "i + 1"] Suc show ?thesis
      by simp
  qed
qed

lemma consume_shape:
  assumes "consume X L cols stream acc count = Inr (dr, c, t, e)"
    and "count = int (length acc)"
  shows "c = int (length dr) \<and> e = (\<not> t)
     \<and> (\<exists>vs. map Inr vs = take (length dr - length acc) stream
              \<and> dr = acc @ map (buildRecord X cols) vs)
     \<and> length acc \<le> length dr
     \<and> (0 < L \<and> int (length acc) \<le> L \<longrightarrow>
          length dr = min (length acc + length stream) (nat L)
          \<and> t = (nat L < length acc + length stream))
     \<and> (L \<le> 0 \<longrightarrow> length dr = length acc + length stream \<and> \<not> t)"
  using assms
proof (induction stream arbitrary: acc count)
  case Nil
  then show ?case by auto
next
  case (Cons r rest)
  show ?case
  proof (cases "L > 0 \<and> count \<ge> L")
    case True
    with Cons.prems show ?thesis by auto
  next
    case False
    with Cons.prems obtain vals where r: "r = Inr vals"
      by (cases r) auto
    let ?acc = "acc @ [buildRecord X cols vals]"
    from Cons.prems(1) False r
    have run: "consume X L cols rest ?acc (count + 1) = Inr (dr, c, t, e)"
      by (auto split: if_splits)
    have cnt: "count + 1 = int (length ?acc)"
      using Cons.prems(2) by simp
    note ih = Cons.IH [OF run cnt]
    from ih obtain vs where vs: "map Inr vs = take (length dr - length ?acc) rest"
      "dr = ?acc @ map (buildRecord X cols) vs" by blast
    have len: "length ?acc \<le> length dr" using ih by blast
    have "map Inr (vals # vs) = take (length dr - length acc) (r # rest)"
      using vs(1) len r by (simp add: take_Cons' Suc_diff_le)
    moreover have "dr = acc @ map (buildRecord X cols) (vals # vs)"
      using vs(2) by simp
    ultimately have ex: "\<exists>vs. map Inr vs = take (length dr - length acc) (r # rest)
              \<and> dr = acc @ map (buildRecord X cols) vs" by blast
    from ih ex len False Cons.prems(2) show ?thesis
      by (auto simp: min_def)
  qed
qed


lemma call_success:
  assumes "call U X h input = Inr out"
  shows "\<exists>L rows dr c t e.
      effectiveLimit h input = Inr L
    \<and> pool h (applyTimeout (requestTimeout h)) (TrimSpace U (SQL input))
          (map (normalizeArgument X) (Args input)) = Inr rows
    \<and> consume X L (FieldDescriptions rows) (Stream rows) [] 0 = Inr (dr, c, t, e)
    \<and> out = \<lparr>Command = commandString
                           (if e then Tag rows else \<lparr>TagBytes = None, RowsAffected = 0\<rparr>),
               RowCount = (if c = 0 \<and> length (FieldDescriptions rows) = 0
                           then RowsAffected
                                  (if e then Tag rows else \<lparr>TagBytes = None, RowsAffected = 0\<rparr>)
                           else c),
               Columns = FieldDescriptions rows, Rows = dr, Truncated = t\<rparr>"
  using assms
  by (auto simp: call_def Let_def split: if_splits sum.splits option.splits prod.splits)

lemmas run_defs =
  call_def classifier_defs effectiveLimit_def applyTimeout_def buildRecord_def
  commandString_def Let_def

lemma sample_call:
  "call asciiOnly amd64 sampleHandler sampleInput =
     Inr \<lparr>Command = [], RowCount = 2, Columns = [''id'', ''id''],
          Rows = [[''id'' \<mapsto> DString ''2''], [''id'' \<mapsto> DNil]], Truncated = True\<rparr>"
  by (simp add: run_defs sampleHandler_def sampleInput_def sampleRows_def)

lemma update_call:
  "call asciiOnly amd64 updateHandler updateInput =
     Inr \<lparr>Command = ''UPDATE 7'', RowCount = 7, Columns = [], Rows = [], Truncated = False\<rparr>"
  by (simp add: run_defs updateHandler_def updateInput_def updateRows_def)

text \<open>
  C4. For a call that succeeds with effective limit \<open>L > 0\<close>: the rows returned are
  the first \<open>L\<close> rows of the result set, or all of them when there are no more than
  \<open>L\<close>; \<open>truncated\<close> is true exactly when the result set held more rows than
  were returned. With \<open>L + 1\<close> rows, \<open>L\<close> are returned and \<open>truncated\<close> is true;
  with \<open>L\<close> rows or fewer, all are returned and \<open>truncated\<close> is false.
\<close>

theorem truncation_at_limit:
  assumes "call U X h input = Inr out"
    and "effectiveLimit h input = Inr L"
    and "0 < L"
    and "pool h (applyTimeout (requestTimeout h)) (TrimSpace U (SQL input))
           (map (normalizeArgument X) (Args input)) = Inr rows"
  shows "length (Rows out) = min (length (Stream rows)) (nat L)
     \<and> Truncated out = (length (Rows out) < length (Stream rows))
     \<and> (length (Stream rows) = nat L + 1 \<longrightarrow> length (Rows out) = nat L \<and> Truncated out)
     \<and> (length (Stream rows) \<le> nat L \<longrightarrow>
          length (Rows out) = length (Stream rows) \<and> \<not> Truncated out)
     \<and> (\<exists>vs. map Inr vs = take (nat L) (Stream rows)
             \<and> Rows out = map (buildRecord X (FieldDescriptions rows)) vs)"
proof -
  from call_success [OF assms(1)] assms(2,4)
  obtain dr c t e where
    run: "consume X L (FieldDescriptions rows) (Stream rows) [] 0 = Inr (dr, c, t, e)"
    and out: "Rows out = dr" "Truncated out = t"
    by auto
  note sh = consume_shape [OF run]
  from sh assms(3) have len: "length dr = min (length (Stream rows)) (nat L)"
    and tr: "t = (nat L < length (Stream rows))"
    by simp_all
  from sh have ex: "\<exists>vs. map Inr vs = take (length dr) (Stream rows)
             \<and> dr = map (buildRecord X (FieldDescriptions rows)) vs"
    by simp
  have "take (length dr) (Stream rows) = take (nat L) (Stream rows)"
    using len by (simp add: min_def)
  with ex have ex': "\<exists>vs. map Inr vs = take (nat L) (Stream rows)
             \<and> Rows out = map (buildRecord X (FieldDescriptions rows)) vs"
    by (simp add: out)
  have a: "length (Rows out) = min (length (Stream rows)) (nat L)"
    using len out by simp
  have b: "Truncated out = (length (Rows out) < length (Stream rows))"
    using len tr out by (auto simp: min_def)
  from a b ex' show ?thesis
    by (simp add: min_def)
qed

theorem truncation_at_limit_witness:
  "\<exists>out. call asciiOnly amd64 sampleHandler sampleInput = Inr out
     \<and> effectiveLimit sampleHandler sampleInput = Inr 2
     \<and> length (Stream sampleRows) = nat 2 + 1
     \<and> length (Rows out) = nat 2 \<and> Truncated out"
proof -
  let ?out = "\<lparr>Command = [], RowCount = 2, Columns = [''id'', ''id''],
          Rows = [[''id'' \<mapsto> DString ''2''], [''id'' \<mapsto> DNil]], Truncated = True\<rparr>"
  have c: "call asciiOnly amd64 sampleHandler sampleInput = Inr ?out"
    by (rule sample_call)
  have l: "effectiveLimit sampleHandler sampleInput = Inr 2"
    by (simp add: effectiveLimit_def sampleHandler_def sampleInput_def)
  have p: "pool sampleHandler (applyTimeout (requestTimeout sampleHandler))
             (TrimSpace asciiOnly (SQL sampleInput))
             (map (normalizeArgument amd64) (Args sampleInput)) = Inr sampleRows"
    by (simp add: sampleHandler_def)
  have n: "length (Stream sampleRows) = nat 2 + 1"
    by (simp add: sampleRows_def)
  from truncation_at_limit [OF c l _ p] n c l show ?thesis
    by simp
qed

text \<open>
  C6. For a call that succeeds, \<open>rowCount\<close> is the number of rows in the row
  sequence, except when no row was emitted and the result has no column: then it is the
  affected-row count of the command tag, and \<open>columns\<close> and \<open>rows\<close> are empty.
\<close>

theorem rowCount_emitted_or_affected:
  assumes "call U X h input = Inr out"
    and "pool h (applyTimeout (requestTimeout h)) (TrimSpace U (SQL input))
           (map (normalizeArgument X) (Args input)) = Inr rows"
  shows "RowCount out =
           (if Rows out = [] \<and> Columns out = [] then RowsAffected (Tag rows)
            else int (length (Rows out)))
     \<and> Columns out = FieldDescriptions rows"
proof -
  from call_success [OF assms(1)] assms(2)
  obtain L dr c t e where
    run: "consume X L (FieldDescriptions rows) (Stream rows) [] 0 = Inr (dr, c, t, e)"
    and out: "Rows out = dr" "Columns out = FieldDescriptions rows"
      "RowCount out = (if c = 0 \<and> length (FieldDescriptions rows) = 0
                           then RowsAffected
                                  (if e then Tag rows else \<lparr>TagBytes = None, RowsAffected = 0\<rparr>)
                           else c)"
    by auto
  note sh = consume_shape [OF run]
  from sh have cnt: "c = int (length dr)" by simp
  have "e" if "dr = []"
  proof (cases "0 < L")
    case True
    with sh have "length dr = min (length (Stream rows)) (nat L)"
      and "t = (nat L < length (Stream rows))"
      by simp_all
    with that True have "\<not> t" by (auto simp: min_def split: if_splits)
    with sh show ?thesis by simp
  next
    case False
    with sh have "\<not> t" by simp
    with sh show ?thesis by simp
  qed
  with cnt out show ?thesis by auto
qed

theorem rowCount_emitted_or_affected_witness:
  "\<exists>out. call asciiOnly amd64 updateHandler updateInput = Inr out
     \<and> Rows out = [] \<and> Columns out = [] \<and> RowCount out = 7"
proof -
  let ?out = "\<lparr>Command = ''UPDATE 7'', RowCount = 7, Columns = [],
                Rows = ([] :: (string \<rightharpoonup> nat dbvalue) list), Truncated = False\<rparr>"
  have c: "call asciiOnly amd64 updateHandler updateInput = Inr ?out"
    by (rule update_call)
  have p: "pool updateHandler (applyTimeout (requestTimeout updateHandler))
             (TrimSpace asciiOnly (SQL updateInput))
             (map (normalizeArgument amd64) (Args updateInput)) = Inr updateRows"
    by (simp add: updateHandler_def)
  from rowCount_emitted_or_affected [OF c p] c show ?thesis
    by (simp add: updateRows_def)
qed

section \<open>The effective row limit\<close>

text \<open>
  C3. The constructor replaces a configured default of 0 or less by 200. The effective
  limit starts from the handler's default; a positive override that is smaller than
  the default, or any positive override when the default is zero, becomes the limit; a
  negative override fails with InvalidLimit, and a call that passed the guardrail
  returns that failure whatever the pool is, so before anything is executed. Default
  200 and override 50 give 50, default 0 and override 10 give 10, default 200 and
  override 500 give 200.
\<close>

theorem effective_limit_rule:
  "(NewServer opts = Inr h \<longrightarrow>
      maxRows h = (if ConfiguredMaxRows opts \<le> 0 then 200 else ConfiguredMaxRows opts))
   \<and> (MaxRows input < 0 \<longrightarrow> effectiveLimit g input = Inl InvalidLimit)
   \<and> (MaxRows input < 0 \<and> TrimSpace U (SQL input) \<noteq> [] \<and> isSingleStatement U (SQL input)
        \<and> (isReadOnlyStatement U (SQL input) \<or> \<not> readOnly g) \<longrightarrow>
        call U X (g\<lparr>pool := p\<rparr>) input = Inl InvalidLimit)
   \<and> (0 \<le> MaxRows input \<longrightarrow>
        effectiveLimit g input =
          Inr (if 0 < MaxRows input \<and> (MaxRows input < maxRows g \<or> maxRows g = 0)
               then MaxRows input else maxRows g))
   \<and> effectiveLimit (g\<lparr>maxRows := 200\<rparr>) (input\<lparr>MaxRows := 50\<rparr>) = Inr 50
   \<and> effectiveLimit (g\<lparr>maxRows := 0\<rparr>) (input\<lparr>MaxRows := 10\<rparr>) = Inr 10
   \<and> effectiveLimit (g\<lparr>maxRows := 200\<rparr>) (input\<lparr>MaxRows := 500\<rparr>) = Inr 200"
proof -
  have a: "NewServer opts = Inr h \<longrightarrow>
      maxRows h = (if ConfiguredMaxRows opts \<le> 0 then 200 else ConfiguredMaxRows opts)"
    by (auto simp: NewServer_def defaultMaxRows_def Let_def split: option.splits)
  have b: "MaxRows input < 0 \<longrightarrow> effectiveLimit g input = Inl InvalidLimit"
    by (simp add: effectiveLimit_def)
  have c: "MaxRows input < 0 \<and> TrimSpace U (SQL input) \<noteq> [] \<and> isSingleStatement U (SQL input)
        \<and> (isReadOnlyStatement U (SQL input) \<or> \<not> readOnly g) \<longrightarrow>
        call U X (g\<lparr>pool := p\<rparr>) input = Inl InvalidLimit"
    by (auto simp: call_def Let_def effectiveLimit_def isSingleStatement_trimmed
          isReadOnlyStatement_iff firstKeyword_trimmed)
  have d: "0 \<le> MaxRows input \<longrightarrow>
        effectiveLimit g input =
          Inr (if 0 < MaxRows input \<and> (MaxRows input < maxRows g \<or> maxRows g = 0)
               then MaxRows input else maxRows g)"
    by (auto simp: effectiveLimit_def)
  have e: "effectiveLimit (g\<lparr>maxRows := 200\<rparr>) (input\<lparr>MaxRows := 50\<rparr>) = Inr 50"
    "effectiveLimit (g\<lparr>maxRows := 0\<rparr>) (input\<lparr>MaxRows := 10\<rparr>) = Inr 10"
    "effectiveLimit (g\<lparr>maxRows := 200\<rparr>) (input\<lparr>MaxRows := 500\<rparr>) = Inr 200"
    by (simp_all add: effectiveLimit_def)
  from a b c d e show ?thesis by blast
qed

theorem effective_limit_rule_witness:
  "NewServer \<lparr>Pool = Some (pool sampleHandler), ReadOnly = False, ConfiguredMaxRows = - 5,
              RequestTimeout = 0\<rparr> = Inr (sampleHandler\<lparr>readOnly := False, maxRows := 200\<rparr>)
   \<and> MaxRows (sampleInput\<lparr>MaxRows := - 1\<rparr>) < 0
   \<and> TrimSpace asciiOnly (SQL (sampleInput\<lparr>MaxRows := - 1\<rparr>)) \<noteq> []
   \<and> isSingleStatement asciiOnly (SQL (sampleInput\<lparr>MaxRows := - 1\<rparr>))
   \<and> isReadOnlyStatement asciiOnly (SQL (sampleInput\<lparr>MaxRows := - 1\<rparr>))
   \<and> call asciiOnly amd64 sampleHandler (sampleInput\<lparr>MaxRows := - 1\<rparr>) = Inl InvalidLimit
   \<and> (0::int) \<le> MaxRows sampleInput
   \<and> effectiveLimit sampleHandler sampleInput = Inr 2"
proof -
  let ?opts = "\<lparr>Pool = Some (pool sampleHandler), ReadOnly = False, ConfiguredMaxRows = - 5,
              RequestTimeout = 0\<rparr>"
  let ?bad = "sampleInput\<lparr>MaxRows := - 1\<rparr>"
  have h1: "NewServer ?opts = Inr (sampleHandler\<lparr>readOnly := False, maxRows := 200\<rparr>)"
    by (simp add: NewServer_def defaultMaxRows_def sampleHandler_def)
  have h2: "MaxRows ?bad < 0" by simp
  have h3: "TrimSpace asciiOnly (SQL ?bad) \<noteq> []"
    by (simp add: sampleInput_def classifier_defs)
  have h4: "isSingleStatement asciiOnly (SQL ?bad)"
    by (simp add: sampleInput_def classifier_defs)
  have h5: "isReadOnlyStatement asciiOnly (SQL ?bad)"
    by (simp add: sampleInput_def classifier_defs)
  have h6: "(0::int) \<le> MaxRows sampleInput"
    by (simp add: sampleInput_def)
  have p: "sampleHandler\<lparr>pool := pool sampleHandler\<rparr> = sampleHandler"
    by simp
  from h1 h2 h3 h4 h5 h6
    effective_limit_rule [of ?opts "sampleHandler\<lparr>readOnly := False, maxRows := 200\<rparr>"
      ?bad sampleHandler asciiOnly amd64 "pool sampleHandler"]
    effective_limit_rule [of ?opts "sampleHandler\<lparr>readOnly := False, maxRows := 200\<rparr>"
      sampleInput sampleHandler asciiOnly amd64 "pool sampleHandler"]
  show ?thesis
    by (simp add: p) (simp add: sampleHandler_def sampleInput_def)
qed

text \<open>
  C9. A handler made by \<open>NewServer\<close> has a default row limit of at least 1 (a
  configured value of 0 or less is replaced by the default of 200), so every
  call through it computes a strictly positive effective limit or fails; the effective
  limit 0, which caps nothing, is out of reach.
\<close>

theorem NewServer_limit_positive:
  assumes "NewServer opts = Inr h"
  shows "1 \<le> maxRows h
     \<and> maxRows h = (if ConfiguredMaxRows opts \<le> 0 then defaultMaxRows
                      else ConfiguredMaxRows opts)
     \<and> defaultMaxRows = 200
     \<and> (\<forall>input. effectiveLimit h input = Inl InvalidLimit
                 \<or> (\<exists>L. effectiveLimit h input = Inr L \<and> 0 < L))
     \<and> (\<forall>input. effectiveLimit h input \<noteq> Inr 0)
     \<and> (\<forall>U X input out. call U X h input = Inr out \<longrightarrow>
           (\<exists>L. effectiveLimit h input = Inr L \<and> 0 < L))"
proof -
  from assms have m: "1 \<le> maxRows h"
    by (auto simp: NewServer_def defaultMaxRows_def Let_def split: option.splits if_splits)
  from assms have r: "maxRows h = (if ConfiguredMaxRows opts \<le> 0 then defaultMaxRows
                      else ConfiguredMaxRows opts)"
    by (auto simp: NewServer_def Let_def split: option.splits)
  have dflt: "defaultMaxRows = 200"
    by (simp add: defaultMaxRows_def)
  from m have lim: "effectiveLimit h input = Inl InvalidLimit
                 \<or> (\<exists>L. effectiveLimit h input = Inr L \<and> 0 < L)" for input
    by (auto simp: effectiveLimit_def Let_def)
  then have nz: "effectiveLimit h input \<noteq> Inr 0" for input
    by (metis Inl_Inr_False less_irrefl sum.inject(2))
  have "\<exists>L. effectiveLimit h input = Inr L \<and> 0 < L" if "call U X h input = Inr out"
    for U X input out
    using that lim [of input]
    by (auto simp: call_def Let_def split: if_splits sum.splits)
  with m r dflt lim nz show ?thesis by blast
qed

theorem NewServer_limit_positive_witness:
  "NewServer \<lparr>Pool = Some (pool sampleHandler), ReadOnly = True, ConfiguredMaxRows = 0,
              RequestTimeout = 0\<rparr> = Inr (sampleHandler\<lparr>maxRows := 200\<rparr>)
   \<and> 1 \<le> maxRows (sampleHandler\<lparr>maxRows := 200\<rparr>)
   \<and> effectiveLimit (sampleHandler\<lparr>maxRows := 200\<rparr>) sampleInput \<noteq> Inr 0"
proof -
  have h: "NewServer \<lparr>Pool = Some (pool sampleHandler), ReadOnly = True, ConfiguredMaxRows = 0,
              RequestTimeout = 0\<rparr> = Inr (sampleHandler\<lparr>maxRows := 200\<rparr>)"
    by (simp add: NewServer_def defaultMaxRows_def sampleHandler_def)
  from NewServer_limit_positive [OF h] h show ?thesis
    by blast
qed

section \<open>Records of rows\<close>

text \<open>
  C10. The record of a row is a map keyed by column name, filled in column order. Its
  keys are the set of column names, so it has no more entries than there are columns
  and fewer when a name repeats; a name is mapped to the cell of the last column that
  carries it; a column with no cell at its index is recorded as nil.
\<close>

theorem record_keyed_by_column_name:
  "dom (buildRecord X cols vs) = set cols
   \<and> card (dom (buildRecord X cols vs)) \<le> length cols
   \<and> (\<not> distinct cols \<longrightarrow> card (dom (buildRecord X cols vs)) < length cols)
   \<and> (k < length cols \<and> cols ! k = name \<and> name \<notin> set (drop (Suc k) cols) \<longrightarrow>
        buildRecord X cols vs name
          = Some (if k < length vs then normalizeValue X (vs ! k) else DNil))
   \<and> buildRecord X [''id'', ''id''] [DBytes ''1'', DBytes ''2''] = [''id'' \<mapsto> DString ''2'']
   \<and> buildRecord X [''a'', ''b''] [DBytes ''1''] = [''a'' \<mapsto> DString ''1'', ''b'' \<mapsto> DNil]"
proof -
  have a: "dom (buildRecord X cols vs) = set cols"
    by (simp add: buildRecord_def fillRecord_dom)
  have b: "card (dom (buildRecord X cols vs)) \<le> length cols"
    unfolding a by (rule card_length)
  have c: "\<not> distinct cols \<longrightarrow> card (dom (buildRecord X cols vs)) < length cols"
  proof
    assume nd: "\<not> distinct cols"
    have "card (set cols) \<noteq> length cols"
      using nd card_distinct [of cols] by blast
    moreover have "card (set cols) \<le> length cols"
      by (rule card_length)
    ultimately show "card (dom (buildRecord X cols vs)) < length cols"
      unfolding a by simp
  qed
  have d: "k < length cols \<and> cols ! k = name \<and> name \<notin> set (drop (Suc k) cols) \<longrightarrow>
        buildRecord X cols vs name
          = Some (if k < length vs then normalizeValue X (vs ! k) else DNil)"
    using fillRecord_last [of k cols name X vs 0 Map.empty]
    by (simp add: buildRecord_def)
  have e: "buildRecord X [''id'', ''id''] [DBytes ''1'', DBytes ''2''] = [''id'' \<mapsto> DString ''2'']"
    by (simp add: buildRecord_def)
  have f: "buildRecord X [''a'', ''b''] [DBytes ''1''] = [''a'' \<mapsto> DString ''1'', ''b'' \<mapsto> DNil]"
    by (simp add: buildRecord_def)
  from a b c d e f show ?thesis by blast
qed

theorem record_keyed_by_column_name_witness:
  "\<not> distinct [''id'', ''n'', ''id'']
   \<and> card (dom (buildRecord amd64 [''id'', ''n'', ''id''] [DBytes ''1'', DOther (5::nat)]))
        < length [''id'', ''n'', ''id'']
   \<and> buildRecord amd64 [''id'', ''n'', ''id''] [DBytes ''1'', DOther (5::nat)] ''id'' = Some DNil
   \<and> buildRecord amd64 [''id'', ''n'', ''id''] [DBytes ''1'', DOther (5::nat)] ''n''
        = Some (DOther 5)"
proof -
  let ?cols = "[''id'', ''n'', ''id'']"
  let ?vs = "[DBytes ''1'', DOther (5::nat)]"
  have h1: "\<not> distinct ?cols" by simp
  have h2: "(2::nat) < length ?cols \<and> ?cols ! 2 = ''id'' \<and> ''id'' \<notin> set (drop (Suc 2) ?cols)"
    by simp
  have h3: "(1::nat) < length ?cols \<and> ?cols ! 1 = ''n'' \<and> ''n'' \<notin> set (drop (Suc 1) ?cols)"
    by simp
  have r1: "card (dom (buildRecord amd64 ?cols ?vs)) < length ?cols"
    using h1 record_keyed_by_column_name [of amd64 ?cols ?vs 2 "''id''"] by blast
  have "buildRecord amd64 ?cols ?vs ''id''
          = Some (if 2 < length ?vs then normalizeValue amd64 (?vs ! 2) else DNil)"
    using h2 record_keyed_by_column_name [of amd64 ?cols ?vs 2 "''id''"] by blast
  then have r2: "buildRecord amd64 ?cols ?vs ''id'' = Some DNil"
    by simp
  have "buildRecord amd64 ?cols ?vs ''n''
          = Some (if 1 < length ?vs then normalizeValue amd64 (?vs ! 1) else DNil)"
    using h3 record_keyed_by_column_name [of amd64 ?cols ?vs 1 "''n''"] by blast
  then have r3: "buildRecord amd64 ?cols ?vs ''n'' = Some (DOther 5)"
    by simp
  from h1 r1 r2 r3 show ?thesis by blast
qed

section \<open>The outbound value normalizer\<close>

lemma digits_lt: "n < 10 \<Longrightarrow> digits w n = replicate (w - 1) CHR ''0'' @ [digit n]"
  by (subst digits.simps) simp

lemma digits_ge: "\<not> n < 10 \<Longrightarrow> digits w n = digits (w - 1) (n div 10) @ [digit n]"
  by (subst digits.simps) simp

lemma civil_2024_01_01: "civil 19723 = (2024, 1, 1)"
  unfolding civil_def Let_def by simp

lemma civil_2024_02_29: "civil 19782 = (2024, 2, 29)"
  unfolding civil_def Let_def by simp

lemmas format_defs =
  Format_RFC3339Nano_def UTC_def civil_2024_01_01 civil_2024_02_29 appendInt_def fraction_def
  digits_lt digits_ge digit_def

lemma digit_cases:
  "digit n \<in> set ''0123456789'' \<and> (of_char (digit n) :: nat) - 48 = n mod 10"
proof -
  define k where "k = n mod 10"
  have "k < 10" by (simp add: k_def)
  then have "k = 0 \<or> k = 1 \<or> k = 2 \<or> k = 3 \<or> k = 4 \<or> k = 5 \<or> k = 6 \<or> k = 7 \<or> k = 8
      \<or> k = 9"
    by arith
  then have "''0123456789'' ! k \<in> set ''0123456789''
      \<and> (of_char (''0123456789'' ! k) :: nat) - 48 = k"
    by (elim disjE) simp_all
  then show ?thesis
    by (simp add: digit_def k_def)
qed

lemma digitsValue_shift: "digitsValue a ys = a * 10 ^ length ys + digitsValue 0 ys"
proof (induction ys arbitrary: a)
  case Nil
  show ?case by simp
next
  case (Cons y ys)
  have "digitsValue a (y # ys) = digitsValue (10 * a + (of_char y - 48)) ys"
    by simp
  also have "\<dots> = (10 * a + (of_char y - 48)) * 10 ^ length ys + digitsValue 0 ys"
    by (rule Cons.IH)
  also have "\<dots> = a * 10 ^ length (y # ys) + ((of_char y - 48) * 10 ^ length ys + digitsValue 0 ys)"
    by (simp add: algebra_simps)
  also have "(of_char y - 48) * 10 ^ length ys + digitsValue 0 ys = digitsValue 0 (y # ys)"
    using Cons.IH [of "of_char y - 48"] by simp
  finally show ?case .
qed

lemma digitsValue_append: "digitsValue a (xs @ ys) = digitsValue (digitsValue a xs) ys"
  by (induction xs arbitrary: a) simp_all

lemma natOfDigits_append:
  "natOfDigits (xs @ ys) = natOfDigits xs * 10 ^ length ys + natOfDigits ys"
  unfolding natOfDigits_def digitsValue_append
  by (rule digitsValue_shift)

lemma natOfDigits_zeros: "natOfDigits (replicate k CHR ''0'') = 0"
  by (induction k) (simp_all add: natOfDigits_def)

lemma natOfDigits_single: "natOfDigits [digit n] = n mod 10"
  using digit_cases [of n] by (simp add: natOfDigits_def)

lemma natOfDigits_digits: "natOfDigits (digits w n) = n"
proof (induction w n rule: digits.induct)
  case (1 w n)
  show ?case
  proof (cases "n < 10")
    case True
    then show ?thesis
      by (simp add: digits_lt natOfDigits_append natOfDigits_zeros natOfDigits_single)
  next
    case False
    with 1 have "natOfDigits (digits (w - 1) (n div 10)) = n div 10" by simp
    with False show ?thesis
      by (simp add: digits_ge natOfDigits_append natOfDigits_single)
  qed
qed

lemma digits_chars: "set (digits w n) \<subseteq> set ''0123456789''"
proof (induction w n rule: digits.induct)
  case (1 w n)
  show ?case
  proof (cases "n < 10")
    case True
    then show ?thesis
      using digit_cases [of n] by (auto simp: digits_lt)
  next
    case False
    with 1 have "set (digits (w - 1) (n div 10)) \<subseteq> set ''0123456789''" by simp
    with False show ?thesis
      using digit_cases [of n] by (auto simp: digits_ge)
  qed
qed

lemma digits_nonempty: "digits w n \<noteq> []"
  by (subst digits.simps) simp


lemma digits_no_point: "CHR ''.'' \<notin> set (digits w n)" "CHR ''-'' \<notin> set (digits w n)"
  using digits_chars [of w n] by auto

lemma unsignedValue_plain:
  assumes "CHR ''.'' \<notin> set xs"
  shows "unsignedValue xs = of_nat (natOfDigits xs)"
proof -
  have tw: "takeWhile (\<lambda>c. c \<noteq> CHR ''.'') xs = xs"
    by (rule takeWhile_eq_all_conv [THEN iffD2]) (use assms in auto)
  have dw: "dropWhile (\<lambda>c. c \<noteq> CHR ''.'') xs = []"
    by (rule dropWhile_eq_Nil_conv [THEN iffD2]) (use assms in auto)
  show ?thesis
    unfolding unsignedValue_def Let_def tw dw by simp
qed

lemma unsignedValue_point:
  assumes "CHR ''.'' \<notin> set xs"
  shows "unsignedValue (xs @ CHR ''.'' # ys) = of_nat (natOfDigits (xs @ ys)) / 10 ^ length ys"
proof -
  have tw: "takeWhile (\<lambda>c. c \<noteq> CHR ''.'') (xs @ CHR ''.'' # ys) = xs"
    by (subst takeWhile_append2) (use assms in auto)
  have dw: "dropWhile (\<lambda>c. c \<noteq> CHR ''.'') (xs @ CHR ''.'' # ys) = CHR ''.'' # ys"
    by (subst dropWhile_append2) (use assms in auto)
  show ?thesis
    unfolding unsignedValue_def Let_def tw dw by simp
qed

lemma unsignedValue_unsignedText:
  "unsignedValue (unsignedText a e)
     = (if 0 \<le> e then of_nat a * 10 ^ nat e else of_nat a / 10 ^ nat (- e))"
proof -
  define d where "d = digits 1 a"
  define k where "k = nat (- e)"
  have np: "CHR ''.'' \<notin> set d" and val: "natOfDigits d = a"
    by (simp_all add: d_def digits_no_point natOfDigits_digits)
  have ut: "unsignedText a e =
     (if 0 \<le> e then (if a = 0 then d else d @ replicate (nat e) CHR ''0'')
      else if k < length d then take (length d - k) d @ ''.'' @ drop (length d - k) d
      else ''0.'' @ replicate (k - length d) CHR ''0'' @ d)"
    unfolding unsignedText_def Let_def d_def k_def by (rule refl)
  show ?thesis
  proof (cases "0 \<le> e")
    case True
    have "CHR ''.'' \<notin> set (d @ replicate (nat e) CHR ''0'')"
      using np by auto
    then have "unsignedValue (d @ replicate (nat e) CHR ''0'') = of_nat (a * 10 ^ nat e)"
      by (simp add: unsignedValue_plain natOfDigits_append natOfDigits_zeros val)
    moreover have "unsignedValue d = of_nat a"
      using np by (simp add: unsignedValue_plain val)
    ultimately show ?thesis
      using True by (simp add: ut)
  next
    case False
    show ?thesis
    proof (cases "k < length d")
      case True
      have "CHR ''.'' \<notin> set (take (length d - k) d)"
        using np by (auto dest: in_set_takeD)
      then have "unsignedValue (take (length d - k) d @ CHR ''.'' # drop (length d - k) d)
                   = of_nat (natOfDigits (take (length d - k) d @ drop (length d - k) d))
                       / 10 ^ length (drop (length d - k) d)"
        by (rule unsignedValue_point)
      also have "\<dots> = of_nat a / 10 ^ k"
        using True by (simp add: val)
      finally show ?thesis
        using False True by (simp add: ut k_def)
    next
      case nl: False
      have "unsignedValue (''0'' @ CHR ''.'' # (replicate (k - length d) CHR ''0'' @ d))
              = of_nat (natOfDigits (''0'' @ (replicate (k - length d) CHR ''0'' @ d)))
                  / 10 ^ length (replicate (k - length d) CHR ''0'' @ d)"
        by (rule unsignedValue_point) simp
      also have "natOfDigits (''0'' @ (replicate (k - length d) CHR ''0'' @ d)) = a"
      proof -
        have z: "natOfDigits ''0'' = 0"
          by (simp add: natOfDigits_def)
        show ?thesis
          by (simp only: natOfDigits_append z natOfDigits_zeros val)
      qed
      also have "length (replicate (k - length d) CHR ''0'' @ d) = k"
        using nl by simp
      finally show ?thesis
        using False nl by (simp add: ut k_def)
    qed
  qed
qed

lemma unsignedText_chars: "set (unsignedText a e) \<subseteq> set ''.0123456789''"
proof -
  define S where "S = set ''.0123456789''"
  define d where "d = digits 1 a"
  have pt: "CHR ''.'' \<in> S" and zero: "CHR ''0'' \<in> S"
    by (simp_all add: S_def)
  have "set ''0123456789'' \<subseteq> S"
    by (simp add: S_def)
  with digits_chars [of 1 a] have d: "set d \<subseteq> S"
    unfolding d_def by (rule subset_trans)
  have tk: "set (take j d) \<subseteq> S" and dr: "set (drop j d) \<subseteq> S" for j
    using d set_take_subset [of j d] set_drop_subset [of j d] by blast+
  have "set (unsignedText a e) \<subseteq> S"
    unfolding unsignedText_def Let_def d_def [symmetric]
    using pt zero d tk dr by auto
  then show ?thesis
    by (simp only: S_def)
qed

lemma unsignedText_nonempty: "unsignedText a e \<noteq> []"
  by (simp add: unsignedText_def Let_def digits_nonempty)

lemma decimalValue_decimalText:
  "decimalValue (decimalText m e)
     = (if 0 \<le> e then of_int m * 10 ^ nat e else of_int m / 10 ^ nat (- e))"
proof (cases "m < 0")
  case True
  then have "decimalValue (decimalText m e) = - unsignedValue (unsignedText (nat \<bar>m\<bar>) e)"
    by (simp add: decimalText_def decimalValue_def)
  moreover have "(of_nat (nat \<bar>m\<bar>) :: rat) = - of_int m"
    using True by simp
  ultimately show ?thesis
    by (simp add: unsignedValue_unsignedText)
next
  case False
  have "hd (unsignedText (nat \<bar>m\<bar>) e) \<in> set ''.0123456789''"
    using unsignedText_chars [of "nat \<bar>m\<bar>" e] unsignedText_nonempty [of "nat \<bar>m\<bar>" e]
      hd_in_set by blast
  then have "hd (unsignedText (nat \<bar>m\<bar>) e) \<noteq> CHR ''-''"
    by auto
  with False have "decimalValue (decimalText m e) = unsignedValue (unsignedText (nat \<bar>m\<bar>) e)"
    by (simp add: decimalText_def decimalValue_def)
  moreover have "(of_nat (nat \<bar>m\<bar>) :: rat) = of_int m"
    using False by simp
  ultimately show ?thesis
    by (simp add: unsignedValue_unsignedText)
qed

lemma decimalText_chars: "set (decimalText m e) \<subseteq> set ''-.0123456789''"
proof -
  have "set ''.0123456789'' \<subseteq> set ''-.0123456789''"
    by auto
  with unsignedText_chars [of "nat \<bar>m\<bar>" e]
  have "set (unsignedText (nat \<bar>m\<bar>) e) \<subseteq> set ''-.0123456789''"
    by (rule subset_trans)
  then show ?thesis
    by (auto simp: decimalText_def)
qed

lemma replicate_small: "replicate 2 x = [x, x]" "replicate 3 x = [x, x, x]"
  by (simp_all add: numeral_2_eq_2 numeral_3_eq_3)

lemmas decimal_defs =
  Numeric_String_def decimalText_def unsignedText_def digits_lt digits_ge digit_def
  replicate_small

text \<open>
  C8. The outbound normalizer is a total function with these cases: bytes become the
  string of the same bytes; a time becomes its RFC 3339 text in UTC, which ends in
  \<open>Z\<close>, does not depend on the zone the value came in, and carries a fraction when
  the nanoseconds are not zero (the instant 2024-01-01T00:00:00Z renders as that very
  text); a valid numeric becomes its decimal text, which for a finite number is made of
  digits, at most a sign and a point, and denotes exactly \<open>Mantissa * 10^Exp\<close> (15
  with exponent -1 renders as 1.5); an invalid numeric and a nil numeric pointer become
  nil; a value with a \<open>String()\<close> method becomes that text; nil, strings and every
  other value are returned unchanged.
\<close>

theorem normalizeValue_cases:
  "normalizeValue X (DBytes b) = DString b
   \<and> normalizeValue X (DTime t) = DString (Format_RFC3339Nano (t\<lparr>zoneOffset := 0\<rparr>))
   \<and> normalizeValue X (DTime (t\<lparr>zoneOffset := z\<rparr>)) = normalizeValue X (DTime t)
   \<and> (\<exists>body. normalizeValue X (DTime t) = DString (body @ ''Z''))
   \<and> normalizeValue X (DTime \<lparr>unixSec = 1704067200, nsec = 0, zoneOffset = z\<rparr>)
        = DString ''2024-01-01T00:00:00Z''
   \<and> normalizeValue X (DTime \<lparr>unixSec = 1709251199, nsec = 500000000, zoneOffset = z\<rparr>)
        = DString ''2024-02-29T23:59:59.5Z''
   \<and> normalizeValue X (DNumeric n) = (if Valid n then DString (Numeric_String n) else DNil)
   \<and> normalizeValue X (DNumericPtr None) = DNil
   \<and> normalizeValue X (DNumericPtr (Some n))
        = (if Valid n then DString (Numeric_String n) else DNil)
   \<and> (Valid n \<and> \<not> IsNaN n \<and> InfinityModifier n = 0 \<longrightarrow>
        (\<exists>txt. normalizeValue X (DNumeric n) = DString txt
            \<and> normalizeValue X (DNumericPtr (Some n)) = DString txt
            \<and> set txt \<subseteq> set ''-.0123456789''
            \<and> decimalValue txt
                = (if 0 \<le> Exp n then of_int (Mantissa n) * 10 ^ nat (Exp n)
                   else of_int (Mantissa n) / 10 ^ nat (- Exp n))))
   \<and> normalizeValue X
         (DNumeric \<lparr>Mantissa = 15, Exp = - 1, IsNaN = False, InfinityModifier = 0, Valid = True\<rparr>)
        = DString ''1.5''
   \<and> normalizeValue X
         (DNumeric \<lparr>Mantissa = - 12345, Exp = - 2, IsNaN = False, InfinityModifier = 0,
                    Valid = True\<rparr>)
        = DString ''-123.45''
   \<and> normalizeValue X
         (DNumeric \<lparr>Mantissa = 5, Exp = - 3, IsNaN = False, InfinityModifier = 0, Valid = True\<rparr>)
        = DString ''0.005''
   \<and> normalizeValue X
         (DNumeric \<lparr>Mantissa = 42, Exp = 3, IsNaN = False, InfinityModifier = 0, Valid = True\<rparr>)
        = DString ''42000''
   \<and> normalizeValue X
         (DNumeric \<lparr>Mantissa = 15, Exp = - 1, IsNaN = False, InfinityModifier = 0, Valid = False\<rparr>)
        = DNil
   \<and> normalizeValue X (DStringer x s) = DString s
   \<and> normalizeValue X DNil = DNil
   \<and> normalizeValue X (DString s) = DString s
   \<and> normalizeValue X (DOther x) = DOther x"
proof -
  have a: "normalizeValue X (DTime t) = DString (Format_RFC3339Nano (t\<lparr>zoneOffset := 0\<rparr>))"
    by (simp add: UTC_def)
  have b: "normalizeValue X (DTime (t\<lparr>zoneOffset := z\<rparr>)) = normalizeValue X (DTime t)"
    by (simp add: UTC_def)
  have c: "\<exists>body. normalizeValue X (DTime t) = DString (body @ ''Z'')"
    by (simp add: UTC_def Format_RFC3339Nano_def Let_def split: prod.splits)
  have d: "normalizeValue X (DTime \<lparr>unixSec = 1704067200, nsec = 0, zoneOffset = z\<rparr>)
        = DString ''2024-01-01T00:00:00Z''"
    by (simp add: format_defs)
  have e: "normalizeValue X (DTime \<lparr>unixSec = 1709251199, nsec = 500000000, zoneOffset = z\<rparr>)
        = DString ''2024-02-29T23:59:59.5Z''"
    by (simp add: format_defs)
  have f: "normalizeValue X (DNumeric n) = (if Valid n then DString (Numeric_String n) else DNil)"
    "normalizeValue X (DNumericPtr (Some n))
        = (if Valid n then DString (Numeric_String n) else DNil)"
    by simp_all
  have g: "normalizeValue X (DBytes b) = DString b" "normalizeValue X (DNumericPtr None) = DNil"
    "normalizeValue X (DStringer x s) = DString s" "normalizeValue X DNil = DNil"
    "normalizeValue X (DString s) = DString s" "normalizeValue X (DOther x) = DOther x"
    by simp_all
  have h: "Valid n \<and> \<not> IsNaN n \<and> InfinityModifier n = 0 \<longrightarrow>
        (\<exists>txt. normalizeValue X (DNumeric n) = DString txt
            \<and> normalizeValue X (DNumericPtr (Some n)) = DString txt
            \<and> set txt \<subseteq> set ''-.0123456789''
            \<and> decimalValue txt
                = (if 0 \<le> Exp n then of_int (Mantissa n) * 10 ^ nat (Exp n)
                   else of_int (Mantissa n) / 10 ^ nat (- Exp n)))"
  proof
    assume fin: "Valid n \<and> \<not> IsNaN n \<and> InfinityModifier n = 0"
    then have rendered: "Numeric_String n = decimalText (Mantissa n) (Exp n)"
      by (simp add: Numeric_String_def)
    have "normalizeValue X (DNumeric n) = DString (decimalText (Mantissa n) (Exp n))"
      "normalizeValue X (DNumericPtr (Some n)) = DString (decimalText (Mantissa n) (Exp n))"
      using fin rendered by simp_all
    with decimalText_chars [of "Mantissa n" "Exp n"]
      decimalValue_decimalText [of "Mantissa n" "Exp n"]
    show "\<exists>txt. normalizeValue X (DNumeric n) = DString txt
            \<and> normalizeValue X (DNumericPtr (Some n)) = DString txt
            \<and> set txt \<subseteq> set ''-.0123456789''
            \<and> decimalValue txt
                = (if 0 \<le> Exp n then of_int (Mantissa n) * 10 ^ nat (Exp n)
                   else of_int (Mantissa n) / 10 ^ nat (- Exp n))"
      by blast
  qed
  have i: "normalizeValue X
         (DNumeric \<lparr>Mantissa = 15, Exp = - 1, IsNaN = False, InfinityModifier = 0, Valid = True\<rparr>)
        = DString ''1.5''"
    "normalizeValue X
         (DNumeric \<lparr>Mantissa = - 12345, Exp = - 2, IsNaN = False, InfinityModifier = 0,
                    Valid = True\<rparr>)
        = DString ''-123.45''"
    "normalizeValue X
         (DNumeric \<lparr>Mantissa = 5, Exp = - 3, IsNaN = False, InfinityModifier = 0, Valid = True\<rparr>)
        = DString ''0.005''"
    "normalizeValue X
         (DNumeric \<lparr>Mantissa = 42, Exp = 3, IsNaN = False, InfinityModifier = 0, Valid = True\<rparr>)
        = DString ''42000''"
    "normalizeValue X
         (DNumeric \<lparr>Mantissa = 15, Exp = - 1, IsNaN = False, InfinityModifier = 0, Valid = False\<rparr>)
        = DNil"
    by (simp_all add: decimal_defs)
  from a b c d e f g h i show ?thesis by blast
qed

theorem normalizeValue_cases_witness:
  "Valid oneAndAHalf \<and> \<not> IsNaN oneAndAHalf \<and> InfinityModifier oneAndAHalf = 0
   \<and> normalizeValue amd64 (DNumeric oneAndAHalf :: nat dbvalue) = DString ''1.5''
   \<and> decimalValue ''1.5'' = 3 / 2
   \<and> (\<exists>txt. normalizeValue amd64 (DNumeric oneAndAHalf :: nat dbvalue) = DString txt
          \<and> decimalValue txt = 15 / 10 ^ 1)"
proof -
  have fin: "Valid oneAndAHalf \<and> \<not> IsNaN oneAndAHalf \<and> InfinityModifier oneAndAHalf = 0"
    by (simp add: oneAndAHalf_def)
  have rendered: "normalizeValue amd64 (DNumeric oneAndAHalf :: nat dbvalue) = DString ''1.5''"
    by (simp add: oneAndAHalf_def decimal_defs)
  have val: "decimalValue ''1.5'' = 3 / 2"
    by (simp add: decimalValue_def unsignedValue_def natOfDigits_def)
  from fin
    normalizeValue_cases [of amd64 "[]" "\<lparr>unixSec = 0, nsec = 0, zoneOffset = 0\<rparr>" 0
      oneAndAHalf "0::nat" "[]"]
  have "\<exists>txt. normalizeValue amd64 (DNumeric oneAndAHalf :: nat dbvalue) = DString txt
          \<and> decimalValue txt = (if 0 \<le> Exp oneAndAHalf
                then of_int (Mantissa oneAndAHalf) * 10 ^ nat (Exp oneAndAHalf)
                else of_int (Mantissa oneAndAHalf) / 10 ^ nat (- Exp oneAndAHalf))"
    by blast
  then have "\<exists>txt. normalizeValue amd64 (DNumeric oneAndAHalf :: nat dbvalue) = DString txt
          \<and> decimalValue txt = 15 / 10 ^ 1"
    by (simp add: oneAndAHalf_def)
  with fin rendered val show ?thesis by blast
qed

section \<open>The first keyword\<close>

text \<open>
  C5. \<open>firstKeyword\<close> is to skip a leading block comment \<open>/* ... */\<close> and to return
  the empty string when that comment is not closed. It looks for the closing \<open>*/\<close>
  from the very start of the text, so in \<open>/*/\<close> the star of the opening doubles as
  the star of a closing: the comment of \<open>/*/ select 1 */ drop table t\<close> is taken to
  end after three characters, the keyword returned is SELECT (the statement after the
  comment is a DROP, and the read-only check lets it pass), and the unclosed comment
  \<open>/*/ drop table t\<close> yields DROP where \<open>/* drop table t\<close> yields the empty string.
  Comments that are closed are skipped, and a line comment with no newline after it
  yields the empty string.
\<close>

theorem firstKeyword_comment_close_overlaps_open:
  "firstKeyword U (str ''/*/ select 1 */ drop table t'') = str ''SELECT''
   \<and> isReadOnlyStatement U (str ''/*/ select 1 */ drop table t'')
   \<and> isSingleStatement U (str ''/*/ select 1 */ drop table t'')
   \<and> firstKeyword U (str ''/*/ drop table t'') = str ''DROP''
   \<and> firstKeyword U (str ''/* drop table t'') = []
   \<and> firstKeyword U (str ''-- drop table t'') = []
   \<and> firstKeyword U (str ''-- a'' @ [10] @ str '' /* b */ with x as (select 1)'') = str ''WITH''"
  by (simp add: classifier_defs)

section \<open>The inbound argument normalizer\<close>

lemma sint_int64_range: "- (2 ^ 63) \<le> sint (w :: 64 word) \<and> sint w < 2 ^ 63"
  using sint_ge [of w] sint_lt [of w] by simp

text \<open>
  C7. \<open>normalizeArgument\<close> turns every float that equals its truncation into an
  \<open>int64\<close>, also when the float is outside the range of \<open>int64\<close>: the argument
  \<open>1e19\<close> has no fractional part and becomes an \<open>int64\<close> that cannot be
  \<open>10^19\<close>, whatever the platform makes of the conversion, and positive infinity
  becomes an \<open>int64\<close> as well.
\<close>

theorem normalizeArgument_float_beyond_int64:
  "normalizeArgument X (AFloat64 (Finite (10 ^ 19)))
     = AInt64 (Int64OutOfRange X (Finite (10 ^ 19)))
   \<and> sint (Int64OutOfRange X (Finite (10 ^ 19))) \<noteq> 10 ^ 19
   \<and> normalizeArgument X (AFloat64 PosInf) = AInt64 (Int64OutOfRange X PosInf)"
proof -
  have "sint (Int64OutOfRange X (Finite (10 ^ 19))) < 2 ^ 63"
    using sint_int64_range by blast
  then have "sint (Int64OutOfRange X (Finite (10 ^ 19))) \<noteq> 10 ^ 19"
    by simp
  then show ?thesis by simp
qed

text \<open>
  Within the range of \<open>int64\<close> the narrowing keeps the value, and a float with a
  fractional part stays as it is.
\<close>

lemma normalizeArgument_float_in_range:
  assumes "r = of_int z" and "- (2 ^ 63) \<le> z" and "z < 2 ^ 63"
  shows "\<exists>w. normalizeArgument X (AFloat64 (Finite r)) = AInt64 w \<and> sint w = z"
proof -
  have "sint (word_of_int z :: 64 word) = z"
    using assms(2,3) by (simp add: sint_sbintrunc' signed_take_bit_int_eq_self)
  with assms show ?thesis by simp
qed

lemma normalizeArgument_float_fraction:
  assumes "r \<notin> \<int>"
  shows "normalizeArgument X (AFloat64 (Finite r)) = AFloat64 (Finite r)"
proof -
  have "rat_of_int k \<noteq> r" for k
    using assms by (metis Ints_of_int)
  then show ?thesis by simp
qed

end
